theory Spec2Isabelle
  imports Complex_Main
begin

section \<open>Python values\<close>

text \<open>
  A Python \<open>str\<close> is a sequence of Unicode code points, so a character is a natural
  number and a string a list of them. \<open>ustr\<close> turns an ASCII literal into such a string.
  \<open>pyval\<close> is what a decoded JSON body can hold (and so what the raw input of a
  serializer and the payload of a response are made of); a dict literal is an
  association list in the order the source writes its keys.
\<close>

type_synonym pychar = nat
type_synonym pystr = "pychar list"

definition ustr :: "string \<Rightarrow> pystr" where
  "ustr s = map of_char s"

datatype pyval =
    PNone
  | PBool bool
  | PInt int
  | PStr pystr
  | PList "pyval list"
  | PDict "(string \<times> pyval) list"

text \<open>The exceptions the modelled code can leave through.\<close>

datatype exn =
    ValidationError pystr
  | TypeError
  | AttributeError
  | NotFound

text \<open>\<open>d.get(k)\<close>: the value stored under \<open>k\<close>, \<open>None\<close> when the key is absent.\<close>

definition dict_get :: "(string \<rightharpoonup> pyval) \<Rightarrow> string \<Rightarrow> pyval" where
  "dict_get d k = (case d k of None \<Rightarrow> PNone | Some v \<Rightarrow> v)"

text \<open>\<open>isinstance(v, str)\<close>.\<close>

fun isinstance_str :: "pyval \<Rightarrow> bool" where
  "isinstance_str (PStr s) = True"
| "isinstance_str v = False"

section \<open>Regular expressions, as far as \<open>password_regex\<close> uses them\<close>

text \<open>
  The pattern of \<open>auth_serializers.py\<close>, line 29, uses \<open>^\<close>, \<open>$\<close>, positive lookahead
  \<open>(?=...)\<close>, \<open>.*\<close>, a character set taken once, and a character set repeated \<open>{8,16}\<close>
  times. No flag is passed to \<open>re.match\<close>, so
  \<^item> \<open>.\<close> matches every character but the newline (code point 10);
  \<^item> \<open>$\<close> matches at the end of the string and also just before a newline that is the
    last character of the string;
  \<^item> \<open>\d\<close> on a \<open>str\<close> pattern matches every character of Unicode category Nd. The
    ASCII part of that category is the digits \<open>0\<close> to \<open>9\<close> (code points 48 to 57) in every
    version of the Unicode database; the part beyond ASCII belongs to the interpreter's
    database, and is the parameter \<open>nd\<close> here.
\<close>

datatype cset_item = Rng pychar pychar | Ch pychar | BsD

datatype atom = Dot | Set "cset_item list"

datatype re = Bol | Eol | Look "re list" | One atom | Rep atom nat "nat option"

fun in_item :: "(pychar \<Rightarrow> bool) \<Rightarrow> cset_item \<Rightarrow> pychar \<Rightarrow> bool" where
  "in_item nd (Rng a b) c = (a \<le> c \<and> c \<le> b)"
| "in_item nd (Ch x) c = (c = x)"
| "in_item nd BsD c = ((48 \<le> c \<and> c \<le> 57) \<or> (128 \<le> c \<and> nd c))"

fun atom_ok :: "(pychar \<Rightarrow> bool) \<Rightarrow> atom \<Rightarrow> pychar \<Rightarrow> bool" where
  "atom_ok nd Dot c = (c \<noteq> 10)"
| "atom_ok nd (Set items) c = list_ex (\<lambda>it. in_item nd it c) items"

text \<open>
  \<open>matches nd rs i s\<close>: the sequence \<open>rs\<close> of pattern items matches some prefix of \<open>s\<close>,
  where \<open>s\<close> is what is left of the subject string after its first \<open>i\<close> characters. A
  repetition tries every count between its bounds (\<open>None\<close> is no upper bound), which
  is what backtracking finds.
\<close>

fun matches :: "(pychar \<Rightarrow> bool) \<Rightarrow> re list \<Rightarrow> nat \<Rightarrow> pystr \<Rightarrow> bool" where
  "matches nd [] i s = True"
| "matches nd (Bol # rs) i s = (i = 0 \<and> matches nd rs i s)"
| "matches nd (Eol # rs) i s = ((s = [] \<or> s = [10]) \<and> matches nd rs i s)"
| "matches nd (Look ls # rs) i s = (matches nd ls i s \<and> matches nd rs i s)"
| "matches nd (One a # rs) i s =
     (case s of [] \<Rightarrow> False | c # t \<Rightarrow> atom_ok nd a c \<and> matches nd rs (Suc i) t)"
| "matches nd (Rep a lo hi # rs) i s =
     list_ex (\<lambda>n. n \<le> length s \<and> list_all (atom_ok nd a) (take n s)
                  \<and> matches nd rs (i + n) (drop n s))
        [lo ..< Suc (case hi of None \<Rightarrow> length s | Some h \<Rightarrow> h)]"

text \<open>
  \<open>re.match(pattern, string)\<close> as the truth value the source tests: a match object
  (truthy) or \<open>None\<close>; a subject that is not a \<open>str\<close> raises \<open>TypeError\<close>.
\<close>

fun re_match :: "(pychar \<Rightarrow> bool) \<Rightarrow> re list \<Rightarrow> pyval \<Rightarrow> exn + bool" where
  "re_match nd pat (PStr s) = Inr (matches nd pat 0 s)"
| "re_match nd pat v = Inl TypeError"

definition chars :: "string \<Rightarrow> cset_item list" where
  "chars s = map (\<lambda>c. Ch (of_char c)) s"

definition lower_set :: "cset_item list" where
  "lower_set = [Rng (of_char CHR ''a'') (of_char CHR ''z'')]"

definition upper_set :: "cset_item list" where
  "upper_set = [Rng (of_char CHR ''A'') (of_char CHR ''Z'')]"

definition symbol_set :: "cset_item list" where
  "symbol_set = chars ''@$!%*?&#^()-_=+{};:,<.>''"

definition password_set :: "cset_item list" where
  "password_set =
     [Rng (of_char CHR ''A'') (of_char CHR ''Z''), Rng (of_char CHR ''a'') (of_char CHR ''z''), BsD]
     @ symbol_set"

text \<open>
  \<^verbatim>\<open>^(?=.*[a-z])(?=.*[A-Z])(?=.*\d)(?=.*[@$!%*?&#^()\-_=+{};:,<.>])[A-Za-z\d@$!%*?&#^()\-_=+{};:,<.>]{8,16}$\<close>
\<close>

definition password_regex :: "re list" where
  "password_regex =
     [Bol,
      Look [Rep Dot 0 None, One (Set lower_set)],
      Look [Rep Dot 0 None, One (Set upper_set)],
      Look [Rep Dot 0 None, One (Set [BsD])],
      Look [Rep Dot 0 None, One (Set symbol_set)],
      Rep (Set password_set) 8 (Some 16),
      Eol]"

section \<open>The serializers of \<open>auth_serializers.py\<close>\<close>

text \<open>The keyword arguments a \<open>CharField\<close> declaration of the source gives; \<open>None\<close> is "not given".\<close>

record CharField =
  max_length :: "nat option"
  min_length :: "nat option"
  write_only :: bool

definition UserRegistrationSerializer_password :: CharField where
  "UserRegistrationSerializer_password =
     \<lparr>max_length = Some 128, min_length = Some 8, write_only = True\<rparr>"

definition UserRegistrationSerializer_password_confirmation :: CharField where
  "UserRegistrationSerializer_password_confirmation =
     \<lparr>max_length = Some 128, min_length = Some 8, write_only = True\<rparr>"

definition PasswordResetConfirmationSerializer_password :: CharField where
  "PasswordResetConfirmationSerializer_password =
     \<lparr>max_length = Some 128, min_length = Some 8, write_only = False\<rparr>"

definition PasswordResetConfirmationSerializer_password_confirmation :: CharField where
  "PasswordResetConfirmationSerializer_password_confirmation =
     \<lparr>max_length = None, min_length = None, write_only = False\<rparr>"

definition InvalidPassword :: pystr where
  "InvalidPassword = ustr (''Password must be at least 8 characters long and contain at least ''
     @ ''one uppercase letter, one lowercase letter, one digit, and one special character'')"

definition PasswordMismatch :: pystr where
  "PasswordMismatch = ustr ''Passwords do not match''"

text \<open>
  \<open>UserRegistrationSerializer.validate_password_confirmation(self, value)\<close>. \<open>initial\<close> is
  \<open>self.get_initial()\<close>, the raw input by field name, and \<open>value\<close> the confirmation as the
  field has cleaned it (a \<open>str\<close>).
\<close>

definition UserRegistrationSerializer_validate_password_confirmation ::
    "(pychar \<Rightarrow> bool) \<Rightarrow> (string \<rightharpoonup> pyval) \<Rightarrow> pystr \<Rightarrow> exn + pystr" where
  "UserRegistrationSerializer_validate_password_confirmation nd initial value =
     (let password = dict_get initial ''password'' in
      case re_match nd password_regex password of
        Inl e \<Rightarrow> Inl e
      | Inr m \<Rightarrow>
          if \<not> m then Inl (ValidationError InvalidPassword)
          else if password \<noteq> PStr value then Inl (ValidationError PasswordMismatch)
          else Inr value)"

text \<open>\<open>PasswordResetConfirmationSerializer.validate_password_confirmation(self, value)\<close>.\<close>

definition PasswordResetConfirmationSerializer_validate_password_confirmation ::
    "(string \<rightharpoonup> pyval) \<Rightarrow> pystr \<Rightarrow> exn + pystr" where
  "PasswordResetConfirmationSerializer_validate_password_confirmation initial value =
     (let password = dict_get initial ''password'' in
      if password \<noteq> PStr value then Inl (ValidationError PasswordMismatch)
      else Inr value)"

section \<open>The pagination the mixin delegates to\<close>

text \<open>
  \<open>paginated_response\<close> builds a \<open>rest_framework.pagination.PageNumberPagination\<close>, which
  wraps \<open>django.core.paginator.Paginator\<close>. What follows transcribes the methods of those
  two library classes that the call reaches, with the defaults the call leaves in place
  (\<open>orphans = 0\<close>, \<open>allow_empty_first_page = True\<close>, \<open>page_query_param = 'page'\<close>,
  \<open>page_size_query_param = None\<close>, \<open>last_page_strings = ('last',)\<close>).
\<close>

text \<open>
  A queryset: its rows in the order evaluation yields them, and its \<open>ordered\<close> property.
  \<open>order_by('created_at')\<close> sorts by that column (the order among equal keys is the
  database's; a stable sort is taken here, and no result below depends on it).
\<close>

record 'a QuerySet =
  rows :: "'a list"
  ordered :: bool

definition order_by :: "('a \<Rightarrow> int) \<Rightarrow> 'a QuerySet \<Rightarrow> 'a QuerySet" where
  "order_by key qs = qs\<lparr>rows := sort_key key (rows qs), ordered := True\<rparr>"

text \<open>
  The request, as far as pagination reads it: \<open>build_absolute_uri()\<close> and
  \<open>query_params.get('page')\<close>. The latter is \<open>NoPage\<close> when the parameter is absent,
  \<open>Last\<close> for the string \<open>'last'\<close>, \<open>Number n\<close> for a string that \<open>int()\<close> reads as \<open>n\<close>, and
  \<open>NotAnInteger\<close> for every other string. (The empty string is falsy and counts as
  \<open>NoPage\<close> in the releases that read the parameter with \<open>or 1\<close>, quoted below; earlier
  releases pass it on to \<open>int()\<close>, where it is \<open>NotAnInteger\<close>.)
\<close>

datatype query_page = NoPage | Last | Number int | NotAnInteger

record Request =
  build_absolute_uri :: pystr
  page_param :: query_page

record 'a Paginator =
  object_list :: "'a list"
  per_page :: int

datatype InvalidPage = PageNotAnInteger | EmptyPage

text \<open>\<open>Paginator.count\<close>: \<open>self.object_list.count()\<close>.\<close>

definition Paginator_count :: "'a Paginator \<Rightarrow> int" where
  "Paginator_count p = int (length (object_list p))"

text \<open>
  \<open>Paginator.num_pages\<close>:
  \<^verbatim>\<open>if self.count == 0 and not self.allow_empty_first_page: return 0\<close>
  \<^verbatim>\<open>hits = max(1, self.count - self.orphans); return ceil(hits / self.per_page)\<close>
  The first branch is dead under \<open>allow_empty_first_page = True\<close>. \<open>/\<close> is true
  division and \<open>ceil\<close> the ceiling; the source computes the quotient as a float, which
  gives the same ceiling for every count below \<open>2^53\<close>, and the reals stand for it here.
  \<open>per_page\<close> is never 0 where this is called (\<open>paginate_queryset\<close> returns before
  building the paginator).
\<close>

definition Paginator_num_pages :: "'a Paginator \<Rightarrow> int" where
  "Paginator_num_pages p =
     (let hits = max 1 (Paginator_count p - 0)
      in \<lceil>real_of_int hits / real_of_int (per_page p)\<rceil>)"

text \<open>
  \<open>Paginator.validate_number(number)\<close>; \<open>None\<close> is a value that \<open>int()\<close> rejects. (Earlier
  releases let page 1 through when \<open>num_pages\<close> is below 1, which only a negative \<open>per_page\<close>
  reaches; the slice that follows then fails on its negative bound. Nothing below
  depends on which exception a negative page size ends in.)
\<close>

definition Paginator_validate_number :: "'a Paginator \<Rightarrow> int option \<Rightarrow> InvalidPage + int" where
  "Paginator_validate_number p number =
     (case number of
        None \<Rightarrow> Inl PageNotAnInteger
      | Some n \<Rightarrow>
          if n < 1 then Inl EmptyPage
          else if n > Paginator_num_pages p then Inl EmptyPage
          else Inr n)"

record 'a Page =
  page_object_list :: "'a list"
  number :: int
  paginator :: "'a Paginator"

text \<open>\<open>xs[lo:hi]\<close> for \<open>0 \<le> lo\<close>, which is all a validated page number gives.\<close>

definition slice :: "'a list \<Rightarrow> int \<Rightarrow> int \<Rightarrow> 'a list" where
  "slice xs lo hi = take (nat (hi - lo)) (drop (nat lo) xs)"

text \<open>\<open>Paginator.page(number)\<close>, the argument written \<open>num\<close>.\<close>

definition Paginator_page :: "'a Paginator \<Rightarrow> int option \<Rightarrow> InvalidPage + 'a Page" where
  "Paginator_page p num =
     (case Paginator_validate_number p num of
        Inl e \<Rightarrow> Inl e
      | Inr n \<Rightarrow>
          (let bottom = (n - 1) * per_page p;
               top0 = bottom + per_page p;
               top1 = (if top0 + 0 \<ge> Paginator_count p then Paginator_count p else top0)
           in Inr \<lparr>page_object_list = slice (object_list p) bottom top1,
                    number = n, paginator = p\<rparr>))"

text \<open>\<open>Page.has_next\<close>, \<open>Page.has_previous\<close>.\<close>

definition has_next :: "'a Page \<Rightarrow> bool" where
  "has_next pg = (number pg < Paginator_num_pages (paginator pg))"

definition has_previous :: "'a Page \<Rightarrow> bool" where
  "has_previous pg = (number pg > 1)"

text \<open>
  \<open>PageNumberPagination.get_page_number(request, paginator)\<close>:
  \<^verbatim>\<open>page_number = request.query_params.get(self.page_query_param) or 1\<close>
  \<^verbatim>\<open>if page_number in self.last_page_strings: page_number = paginator.num_pages\<close>
\<close>

definition get_page_number :: "Request \<Rightarrow> 'a Paginator \<Rightarrow> int option" where
  "get_page_number request p =
     (case page_param request of
        NoPage \<Rightarrow> Some 1
      | Last \<Rightarrow> Some (Paginator_num_pages p)
      | Number n \<Rightarrow> Some n
      | NotAnInteger \<Rightarrow> None)"

text \<open>
  \<open>PageNumberPagination.paginate_queryset(queryset, request)\<close>. The result is the page
  the paginator object holds afterwards (\<open>self.page\<close>; the list the method returns is its
  \<open>page_object_list\<close>), or \<open>None\<close> when the method returned \<open>None\<close> at \<open>if not page_size\<close>
  and left the object without a \<open>page\<close> attribute. An \<open>InvalidPage\<close> is re-raised as
  \<open>NotFound\<close>.
\<close>

definition paginate_queryset :: "int \<Rightarrow> 'a QuerySet \<Rightarrow> Request \<Rightarrow> exn + 'a Page option" where
  "paginate_queryset page_size queryset request =
     (if page_size = 0 then Inr None
      else
        (let p = \<lparr>object_list = rows queryset, per_page = page_size\<rparr>;
             page_number = get_page_number request p
         in case Paginator_page p page_number of
              Inl e \<Rightarrow> Inl NotFound
            | Inr pg \<Rightarrow> Inr (Some pg)))"

text \<open>
  What the mixin takes from outside: the column \<open>created_at\<close> of a row, the serializer
  applied to one row, and the two URL helpers of \<open>rest_framework.utils.urls\<close> (called
  with the key \<open>'page'\<close>).
\<close>

record 'a collaborators =
  created_at :: "'a \<Rightarrow> int"
  serializer_class :: "'a \<Rightarrow> pyval"
  replace_query_param :: "pystr \<Rightarrow> int \<Rightarrow> pystr"
  remove_query_param :: "pystr \<Rightarrow> pystr"

text \<open>\<open>PageNumberPagination.get_next_link()\<close> and \<open>get_previous_link()\<close>.\<close>

definition get_next_link :: "'a collaborators \<Rightarrow> Request \<Rightarrow> 'a Page \<Rightarrow> pyval" where
  "get_next_link env request pg =
     (if \<not> has_next pg then PNone
      else PStr (replace_query_param env (build_absolute_uri request) (number pg + 1)))"

definition get_previous_link :: "'a collaborators \<Rightarrow> Request \<Rightarrow> 'a Page \<Rightarrow> pyval" where
  "get_previous_link env request pg =
     (if \<not> has_previous pg then PNone
      else
        (let url = build_absolute_uri request; page_number = number pg - 1
         in if page_number = 1 then PStr (remove_query_param env url)
            else PStr (replace_query_param env url page_number)))"

section \<open>\<open>APIResponseMixin\<close>\<close>

record Response =
  data :: pyval
  status :: int

definition HTTP_200_OK :: int where
  "HTTP_200_OK = 200"

definition HTTP_400_BAD_REQUEST :: int where
  "HTTP_400_BAD_REQUEST = 400"

text \<open>A keyword argument with a default: \<open>None\<close> is "not passed".\<close>

definition arg_or :: "'a \<Rightarrow> 'a option \<Rightarrow> 'a" where
  "arg_or d a = (case a of None \<Rightarrow> d | Some v \<Rightarrow> v)"

text \<open>\<open>success(message, data=None, status_code=status.HTTP_200_OK)\<close>.\<close>

definition success :: "pystr \<Rightarrow> pyval option \<Rightarrow> int option \<Rightarrow> Response" where
  "success message data_arg status_code_arg =
     (let data = arg_or PNone data_arg;
          status_code = arg_or HTTP_200_OK status_code_arg;
          response_data = PDict [(''status'', PBool True),
                                 (''message'', PStr message),
                                 (''data'', data)]
      in \<lparr>data = response_data, status = status_code\<rparr>)"

text \<open>\<open>error(message, errors=None, status_code=status.HTTP_400_BAD_REQUEST)\<close>.\<close>

definition error :: "pystr \<Rightarrow> pyval option \<Rightarrow> int option \<Rightarrow> Response" where
  "error message errors_arg status_code_arg =
     (let errors = arg_or PNone errors_arg;
          status_code = arg_or HTTP_400_BAD_REQUEST status_code_arg;
          response_data = PDict [(''status'', PBool False),
                                 (''message'', PStr message),
                                 (''errors'', if isinstance_str errors then PList [errors] else errors)]
      in \<lparr>data = response_data, status = status_code\<rparr>)"

text \<open>
  \<open>paginated_response(request, queryset, serializer_class, message="Success",
  page_size=10, status_code=status.HTTP_200_OK)\<close>. A queryset of \<open>None\<close> has no attribute
  \<open>ordered\<close>; a paginator that returned \<open>None\<close> has no attribute \<open>page\<close> when the links are
  asked for.
\<close>

definition paginated_response ::
    "'a collaborators \<Rightarrow> Request \<Rightarrow> 'a QuerySet option \<Rightarrow> pystr option \<Rightarrow> int option \<Rightarrow> int option
       \<Rightarrow> exn + Response" where
  "paginated_response env request queryset_arg message_arg page_size_arg status_code_arg =
     (let message = arg_or (ustr ''Success'') message_arg;
          page_size = arg_or 10 page_size_arg;
          status_code = arg_or HTTP_200_OK status_code_arg
      in case queryset_arg of
           None \<Rightarrow> Inl AttributeError
         | Some queryset0 \<Rightarrow>
             (let queryset = (if \<not> ordered queryset0 then order_by (created_at env) queryset0
                              else queryset0)
              in case paginate_queryset page_size queryset request of
                   Inl e \<Rightarrow> Inl e
                 | Inr None \<Rightarrow> Inl AttributeError
                 | Inr (Some page) \<Rightarrow>
                     (let data = PList (map (serializer_class env) (page_object_list page));
                          response_data =
                            PDict [(''status'', PBool True),
                                   (''message'', PStr message),
                                   (''data'', data),
                                   (''status_code'', PInt status_code),
                                   (''pagination'',
                                      PDict [(''next'', get_next_link env request page),
                                             (''previous'', get_previous_link env request page),
                                             (''count'', PInt (Paginator_count (paginator page))),
                                             (''current_page'', PInt (number page)),
                                             (''total_pages'',
                                                PInt (Paginator_num_pages (paginator page)))])]
                      in Inr \<lparr>data = response_data, status = HTTP_200_OK\<rparr>)))"

text \<open>Reading a key of a dict value; \<open>None\<close> when the value is no dict or lacks the key.\<close>

fun field :: "pyval \<Rightarrow> string \<Rightarrow> pyval option" where
  "field (PDict kvs) k = map_of kvs k"
| "field v k = None"

section \<open>Sample inputs\<close>

text \<open>
  A table with no decimal digit beyond ASCII, to run the matcher on concrete strings.
  The strings used below are ASCII (with or without a final newline), and what the
  model computes on them is the same for every table: the evaluation lemmas leave the
  table free.
\<close>

definition no_more_digits :: "pychar \<Rightarrow> bool" where
  "no_more_digits c = False"

text \<open>
  Collaborators for running \<open>paginated_response\<close>: rows are integers that are their own
  \<open>created_at\<close>, the serializer wraps a row as a number, and the URL helpers are stand-ins
  that hand the URL back (only whether a link is null is looked at).
\<close>

definition sample_env :: "int collaborators" where
  "sample_env = \<lparr>created_at = (\<lambda>x. x), serializer_class = PInt,
                  replace_query_param = (\<lambda>url n. url), remove_query_param = (\<lambda>url. url)\<rparr>"

definition sample_request :: "query_page \<Rightarrow> Request" where
  "sample_request pg = \<lparr>build_absolute_uri = ustr ''http://testserver/items/'', page_param = pg\<rparr>"

section \<open>Facts about the model\<close>

lemmas regex_defs = password_regex_def ustr_def lower_set_def upper_set_def symbol_set_def
  password_set_def chars_def

lemma messages_differ: "InvalidPassword \<noteq> PasswordMismatch"
  by (simp add: InvalidPassword_def PasswordMismatch_def ustr_def)

text \<open>The registration validator, by the kind of value the raw input holds under \<open>password\<close>.\<close>

lemma registration_cases:
  "UserRegistrationSerializer_validate_password_confirmation nd initial value =
     (case dict_get initial ''password'' of
        PStr p \<Rightarrow>
          if \<not> matches nd password_regex 0 p then Inl (ValidationError InvalidPassword)
          else if p \<noteq> value then Inl (ValidationError PasswordMismatch)
          else Inr value
      | _ \<Rightarrow> Inl TypeError)"
  by (simp add: UserRegistrationSerializer_validate_password_confirmation_def Let_def
           split: pyval.splits)

lemma matches_Abcdef1: "matches nd password_regex 0 (ustr ''Abcdef1!'')"
  by (simp add: regex_defs)

lemma matches_Abcdef1_newline: "matches nd password_regex 0 (ustr ''Abcdef1!'' @ [10])"
  by (simp add: regex_defs)

lemma matches_16_newline: "matches nd password_regex 0 (ustr ''Abcdefgh1234567!'' @ [10])"
  by (simp add: regex_defs)

lemma not_matches_abcdef12: "\<not> matches nd password_regex 0 (ustr ''abcdef12'')"
  by (simp add: regex_defs)

text \<open>A single character set, a lookahead \<open>(?=.*[S])\<close>, and the bounded repetition before \<open>$\<close>.\<close>

lemma one_iff:
  "matches nd [One a] i s = (s \<noteq> [] \<and> atom_ok nd a (hd s))"
  by (cases s) simp_all

lemma lookahead_iff:
  "matches nd [Rep Dot 0 None, One (Set S)] i s
     = (\<exists>n<length s. (\<forall>k<n. s ! k \<noteq> 10) \<and> atom_ok nd (Set S) (s ! n))"
proof -
  have "matches nd [Rep Dot 0 None, One (Set S)] i s
      = (\<exists>n\<le>length s. list_all (atom_ok nd Dot) (take n s)
            \<and> drop n s \<noteq> [] \<and> atom_ok nd (Set S) (hd (drop n s)))"
    unfolding matches.simps(6) one_iff list_ex_iff
    by (simp add: less_Suc_eq_le Bex_def del: atom_ok.simps) (metis not_le)
  also have "\<dots> = (\<exists>n<length s. (\<forall>k<n. s ! k \<noteq> 10) \<and> atom_ok nd (Set S) (s ! n))"
  proof
    assume "\<exists>n\<le>length s. list_all (atom_ok nd Dot) (take n s)
              \<and> drop n s \<noteq> [] \<and> atom_ok nd (Set S) (hd (drop n s))"
    then obtain n where n: "list_all (atom_ok nd Dot) (take n s)" "drop n s \<noteq> []"
        "atom_ok nd (Set S) (hd (drop n s))"
      by blast
    from n(2) have lt: "n < length s" by simp
    from n(1) lt have "\<forall>k<n. s ! k \<noteq> 10" by (simp add: list_all_length)
    moreover from n(3) lt have "atom_ok nd (Set S) (s ! n)" by (simp only: hd_drop_conv_nth)
    ultimately show "\<exists>n<length s. (\<forall>k<n. s ! k \<noteq> 10) \<and> atom_ok nd (Set S) (s ! n)"
      using lt by blast
  next
    assume "\<exists>n<length s. (\<forall>k<n. s ! k \<noteq> 10) \<and> atom_ok nd (Set S) (s ! n)"
    then obtain n where lt: "n < length s" and k: "\<forall>k<n. s ! k \<noteq> 10"
        and a: "atom_ok nd (Set S) (s ! n)"
      by blast
    from lt k have "list_all (atom_ok nd Dot) (take n s)" by (simp add: list_all_length)
    moreover from lt have "drop n s \<noteq> []" by simp
    moreover from a lt have "atom_ok nd (Set S) (hd (drop n s))" by (simp only: hd_drop_conv_nth)
    ultimately show "\<exists>n\<le>length s. list_all (atom_ok nd Dot) (take n s)
              \<and> drop n s \<noteq> [] \<and> atom_ok nd (Set S) (hd (drop n s))"
      using lt by (metis less_imp_le_nat)
  qed
  finally show ?thesis .
qed

lemma tail_iff:
  "matches nd [Rep (Set P) lo (Some hi), Eol] i s
     = (\<exists>n. lo \<le> n \<and> n \<le> hi \<and> n \<le> length s
            \<and> list_all (atom_ok nd (Set P)) (take n s)
            \<and> (drop n s = [] \<or> drop n s = [10]))"
  by (auto simp: list_ex_iff less_Suc_eq_le)

text \<open>
  On a string without newline, with or without one appended, the lookahead for a set that
  does not hold the newline finds exactly the characters of the string that are in the set.
\<close>

lemma look_on_clean:
  assumes clean: "\<forall>c\<in>set w. c \<noteq> 10" and nl: "\<not> atom_ok nd (Set S) 10" and s: "s = w \<or> s = w @ [10]"
  shows "(\<exists>n<length s. (\<forall>k<n. s ! k \<noteq> 10) \<and> atom_ok nd (Set S) (s ! n)) = (\<exists>c\<in>set w. atom_ok nd (Set S) c)"
proof
  assume "\<exists>n<length s. (\<forall>k<n. s ! k \<noteq> 10) \<and> atom_ok nd (Set S) (s ! n)"
  then obtain n where n: "n < length s" "atom_ok nd (Set S) (s ! n)" by blast
  have "n < length w"
  proof (rule ccontr)
    assume "\<not> n < length w"
    with n(1) s have "s = w @ [10]" and "n = length w" by auto
    then have "s ! n = 10" by simp
    with n(2) nl show False by (simp del: atom_ok.simps)
  qed
  moreover from this s have "s ! n = w ! n" by (auto simp: nth_append)
  ultimately show "\<exists>c\<in>set w. atom_ok nd (Set S) c" using n(2) by (metis nth_mem)
next
  assume "\<exists>c\<in>set w. atom_ok nd (Set S) c"
  then obtain n where n: "n < length w" "atom_ok nd (Set S) (w ! n)" by (metis in_set_conv_nth)
  from s have pre: "\<And>k. k < length w \<Longrightarrow> s ! k = w ! k" by (auto simp: nth_append)
  from n(1) s have "n < length s" by auto
  moreover have "\<forall>k<n. s ! k \<noteq> 10"
    using clean n(1) pre by (metis less_trans nth_mem)
  moreover have "atom_ok nd (Set S) (s ! n)" using n pre by (simp del: atom_ok.simps)
  ultimately show "\<exists>n<length s. (\<forall>k<n. s ! k \<noteq> 10) \<and> atom_ok nd (Set S) (s ! n)" by blast
qed

lemma newline_in_no_set:
  "\<not> atom_ok nd (Set password_set) 10" "\<not> atom_ok nd (Set lower_set) 10"
  "\<not> atom_ok nd (Set upper_set) 10" "\<not> atom_ok nd (Set [BsD]) 10"
  "\<not> atom_ok nd (Set symbol_set) 10"
  by (simp_all add: password_set_def lower_set_def upper_set_def symbol_set_def chars_def)

text \<open>
  What \<open>password_regex\<close> accepts: the strings of 8 to 16 characters of the permitted set
  with a lowercase letter, an uppercase letter, a digit and a symbol among them, and the
  same strings with one newline appended.
\<close>

lemma password_regex_unfolded:
  "matches nd password_regex 0 s =
     ((\<exists>n<length s. (\<forall>k<n. s ! k \<noteq> 10) \<and> atom_ok nd (Set lower_set) (s ! n))
    \<and> (\<exists>n<length s. (\<forall>k<n. s ! k \<noteq> 10) \<and> atom_ok nd (Set upper_set) (s ! n))
    \<and> (\<exists>n<length s. (\<forall>k<n. s ! k \<noteq> 10) \<and> atom_ok nd (Set [BsD]) (s ! n))
    \<and> (\<exists>n<length s. (\<forall>k<n. s ! k \<noteq> 10) \<and> atom_ok nd (Set symbol_set) (s ! n))
    \<and> (\<exists>n. 8 \<le> n \<and> n \<le> 16 \<and> n \<le> length s
            \<and> list_all (atom_ok nd (Set password_set)) (take n s)
            \<and> (drop n s = [] \<or> drop n s = [10])))"
  unfolding password_regex_def matches.simps(2) matches.simps(4) lookahead_iff tail_iff
  by simp

lemma password_regex_iff:
  "matches nd password_regex 0 s =
     (\<exists>w. (s = w \<or> s = w @ [10])
        \<and> 8 \<le> length w \<and> length w \<le> 16
        \<and> list_all (atom_ok nd (Set password_set)) w
        \<and> list_ex (atom_ok nd (Set lower_set)) w
        \<and> list_ex (atom_ok nd (Set upper_set)) w
        \<and> list_ex (atom_ok nd (Set [BsD])) w
        \<and> list_ex (atom_ok nd (Set symbol_set)) w)"
proof
  assume "matches nd password_regex 0 s"
  then obtain n where
    looks: "\<exists>n<length s. (\<forall>k<n. s ! k \<noteq> 10) \<and> atom_ok nd (Set lower_set) (s ! n)"
           "\<exists>n<length s. (\<forall>k<n. s ! k \<noteq> 10) \<and> atom_ok nd (Set upper_set) (s ! n)"
           "\<exists>n<length s. (\<forall>k<n. s ! k \<noteq> 10) \<and> atom_ok nd (Set [BsD]) (s ! n)"
           "\<exists>n<length s. (\<forall>k<n. s ! k \<noteq> 10) \<and> atom_ok nd (Set symbol_set) (s ! n)"
    and n: "8 \<le> n" "n \<le> 16" "n \<le> length s"
    and all: "list_all (atom_ok nd (Set password_set)) (take n s)"
    and rest: "drop n s = [] \<or> drop n s = [10]"
    unfolding password_regex_unfolded by blast
  let ?w = "take n s"
  have s: "s = ?w \<or> s = ?w @ [10]"
    using rest by (metis append_take_drop_id append_Nil2)
  have clean: "\<forall>c\<in>set ?w. c \<noteq> 10"
    using all newline_in_no_set(1) [of nd] unfolding list_all_iff by blast
  have len: "8 \<le> length ?w" "length ?w \<le> 16" using n by simp_all
  have ex: "list_ex (atom_ok nd (Set lower_set)) ?w" "list_ex (atom_ok nd (Set upper_set)) ?w"
    "list_ex (atom_ok nd (Set [BsD])) ?w" "list_ex (atom_ok nd (Set symbol_set)) ?w"
    using looks
    unfolding list_ex_iff
      look_on_clean [of ?w nd lower_set s, OF clean newline_in_no_set(2) s]
      look_on_clean [of ?w nd upper_set s, OF clean newline_in_no_set(3) s]
      look_on_clean [of ?w nd "[BsD]" s, OF clean newline_in_no_set(4) s]
      look_on_clean [of ?w nd symbol_set s, OF clean newline_in_no_set(5) s]
    by blast+
  show "\<exists>w. (s = w \<or> s = w @ [10])
        \<and> 8 \<le> length w \<and> length w \<le> 16
        \<and> list_all (atom_ok nd (Set password_set)) w
        \<and> list_ex (atom_ok nd (Set lower_set)) w
        \<and> list_ex (atom_ok nd (Set upper_set)) w
        \<and> list_ex (atom_ok nd (Set [BsD])) w
        \<and> list_ex (atom_ok nd (Set symbol_set)) w"
    using s len all ex by blast
next
  assume "\<exists>w. (s = w \<or> s = w @ [10])
        \<and> 8 \<le> length w \<and> length w \<le> 16
        \<and> list_all (atom_ok nd (Set password_set)) w
        \<and> list_ex (atom_ok nd (Set lower_set)) w
        \<and> list_ex (atom_ok nd (Set upper_set)) w
        \<and> list_ex (atom_ok nd (Set [BsD])) w
        \<and> list_ex (atom_ok nd (Set symbol_set)) w"
  then obtain w where s: "s = w \<or> s = w @ [10]"
    and len: "8 \<le> length w" "length w \<le> 16"
    and all: "list_all (atom_ok nd (Set password_set)) w"
    and ex: "\<exists>c\<in>set w. atom_ok nd (Set lower_set) c" "\<exists>c\<in>set w. atom_ok nd (Set upper_set) c"
            "\<exists>c\<in>set w. atom_ok nd (Set [BsD]) c" "\<exists>c\<in>set w. atom_ok nd (Set symbol_set) c"
    unfolding list_ex_iff by blast
  have clean: "\<forall>c\<in>set w. c \<noteq> 10"
    using all newline_in_no_set(1) [of nd] unfolding list_all_iff by blast
  have tail: "\<exists>n. 8 \<le> n \<and> n \<le> 16 \<and> n \<le> length s
            \<and> list_all (atom_ok nd (Set password_set)) (take n s)
            \<and> (drop n s = [] \<or> drop n s = [10])"
    using s len all by (intro exI [of _ "length w"]) auto
  show "matches nd password_regex 0 s"
    unfolding password_regex_unfolded
    using tail ex
    unfolding
      look_on_clean [of w nd lower_set s, OF clean newline_in_no_set(2) s, symmetric]
      look_on_clean [of w nd upper_set s, OF clean newline_in_no_set(3) s, symmetric]
      look_on_clean [of w nd "[BsD]" s, OF clean newline_in_no_set(4) s, symmetric]
      look_on_clean [of w nd symbol_set s, OF clean newline_in_no_set(5) s, symmetric]
    by blast
qed

lemma password_regex_no_final_newline:
  assumes "s = [] \<or> last s \<noteq> 10"
  shows "matches nd password_regex 0 s =
     (8 \<le> length s \<and> length s \<le> 16
        \<and> list_all (atom_ok nd (Set password_set)) s
        \<and> list_ex (atom_ok nd (Set lower_set)) s
        \<and> list_ex (atom_ok nd (Set upper_set)) s
        \<and> list_ex (atom_ok nd (Set [BsD])) s
        \<and> list_ex (atom_ok nd (Set symbol_set)) s)"
proof -
  have "\<And>w. s \<noteq> w @ [10]" using assms by auto
  then show ?thesis unfolding password_regex_iff by blast
qed

lemma password_regex_final_newline:
  "matches nd password_regex 0 (w @ [10]) =
     (8 \<le> length w \<and> length w \<le> 16
        \<and> list_all (atom_ok nd (Set password_set)) w
        \<and> list_ex (atom_ok nd (Set lower_set)) w
        \<and> list_ex (atom_ok nd (Set upper_set)) w
        \<and> list_ex (atom_ok nd (Set [BsD])) w
        \<and> list_ex (atom_ok nd (Set symbol_set)) w)"
proof -
  have "\<And>v. list_all (atom_ok nd (Set password_set)) v \<Longrightarrow> w @ [10] \<noteq> v"
    using newline_in_no_set(1) [of nd] by (auto simp: list_all_iff simp del: atom_ok.simps)
  then show ?thesis unfolding password_regex_iff by (auto simp del: atom_ok.simps)
qed

text \<open>The ceiling of a quotient of integers, on the integers.\<close>

lemma ceiling_int_div: "\<lceil>real_of_int a / real_of_int b\<rceil> = - ((- a) div b)"
proof -
  have "\<lceil>real_of_int a / real_of_int b\<rceil> = - \<lfloor>- (real_of_int a / real_of_int b)\<rfloor>"
    by (simp add: ceiling_def)
  also have "- (real_of_int a / real_of_int b) = real_of_int (- a) / real_of_int b"
    by simp
  also have "\<lfloor>real_of_int (- a) / real_of_int b\<rfloor> = (- a) div b"
    by (rule floor_divide_of_int_eq)
  finally show ?thesis .
qed

lemma num_pages_int:
  "Paginator_num_pages p = - ((- max 1 (Paginator_count p)) div per_page p)"
  unfolding Paginator_num_pages_def Let_def ceiling_int_div by simp

lemma num_pages_nonpos:
  assumes "per_page p < 0"
  shows "Paginator_num_pages p \<le> 0"
proof -
  have "0 \<le> max 1 (Paginator_count p)" by simp
  then have "(- max 1 (Paginator_count p)) div per_page p \<ge> 0"
    using assms by (simp add: neg_imp_zdiv_nonneg_iff)
  then show ?thesis by (simp add: num_pages_int)
qed

lemma num_pages_empty:
  assumes "0 < per_page p" and "object_list p = []"
  shows "Paginator_num_pages p = 1"
proof -
  have "(- 1) div per_page p = - 1"
    using assms(1) by (simp add: div_eq_minus1)
  then show ?thesis
    using assms(2) by (simp add: num_pages_int Paginator_count_def)
qed

lemma num_pages_nonempty:
  assumes "object_list p \<noteq> []"
  shows "Paginator_num_pages p
           = \<lceil>real_of_int (Paginator_count p) / real_of_int (per_page p)\<rceil>"
proof -
  have "1 \<le> Paginator_count p"
    using assms by (cases "object_list p") (simp_all add: Paginator_count_def)
  then have "max 1 (Paginator_count p - 0) = Paginator_count p" by simp
  then show ?thesis by (simp add: Paginator_num_pages_def Let_def)
qed

text \<open>What a page that \<open>paginate_queryset\<close> produced is known to satisfy.\<close>

lemma paginate_queryset_page:
  assumes "paginate_queryset page_size qs request = Inr (Some pg)"
  shows "page_size \<noteq> 0
         \<and> paginator pg = \<lparr>object_list = rows qs, per_page = page_size\<rparr>
         \<and> get_page_number request (paginator pg) = Some (number pg)
         \<and> 1 \<le> number pg \<and> number pg \<le> Paginator_num_pages (paginator pg)"
  using assms
  by (auto simp: paginate_queryset_def Let_def Paginator_page_def Paginator_validate_number_def
           split: if_splits sum.splits option.splits)

lemma paginate_queryset_positive:
  assumes "paginate_queryset page_size qs request = Inr (Some pg)"
  shows "0 < page_size"
proof (rule ccontr)
  assume "\<not> 0 < page_size"
  with paginate_queryset_page [OF assms] have neg: "per_page (paginator pg) < 0" by simp
  from num_pages_nonpos [OF neg] paginate_queryset_page [OF assms] show False by linarith
qed

text \<open>Unfolding \<open>paginated_response\<close> and what it calls, to run it on a concrete input.\<close>

lemmas pag_defs = paginated_response_def paginate_queryset_def Paginator_page_def
  Paginator_validate_number_def get_page_number_def get_next_link_def get_previous_link_def
  has_next_def has_previous_def num_pages_int Paginator_count_def slice_def order_by_def
  arg_or_def HTTP_200_OK_def sample_env_def sample_request_def Let_def

text \<open>A returned response was built from a page that \<open>paginate_queryset\<close> produced.\<close>

lemma paginated_response_Inr:
  assumes "paginated_response env request (Some qs) message_arg page_size_arg status_code_arg
             = Inr response"
  shows "\<exists>pg qs'. length (rows qs') = length (rows qs)
           \<and> paginate_queryset (arg_or 10 page_size_arg) qs' request = Inr (Some pg)
           \<and> field (data response) ''data''
               = Some (PList (map (serializer_class env) (page_object_list pg)))
           \<and> field (data response) ''pagination''
               = Some (PDict [(''next'', get_next_link env request pg),
                              (''previous'', get_previous_link env request pg),
                              (''count'', PInt (Paginator_count (paginator pg))),
                              (''current_page'', PInt (number pg)),
                              (''total_pages'', PInt (Paginator_num_pages (paginator pg)))])"
proof -
  let ?qs = "if \<not> ordered qs then order_by (created_at env) qs else qs"
  have len: "length (rows ?qs) = length (rows qs)"
    by (simp add: order_by_def)
  from assms obtain pg where
    pq: "paginate_queryset (arg_or 10 page_size_arg) ?qs request = Inr (Some pg)"
    by (auto simp: paginated_response_def Let_def split: sum.splits option.splits)
  with assms have
    "field (data response) ''data''
       = Some (PList (map (serializer_class env) (page_object_list pg)))
     \<and> field (data response) ''pagination''
       = Some (PDict [(''next'', get_next_link env request pg),
                      (''previous'', get_previous_link env request pg),
                      (''count'', PInt (Paginator_count (paginator pg))),
                      (''current_page'', PInt (number pg)),
                      (''total_pages'', PInt (Paginator_num_pages (paginator pg)))])"
    by (auto simp: paginated_response_def Let_def split: sum.splits option.splits)
  with len pq show ?thesis by blast
qed

lemma ceil_div_le: "0 < (p::int) \<Longrightarrow> - ((- n) div p) - 1 \<le> n div p"
  by (simp add: zdiv_zminus1_eq_if)

lemma div_mult_le_int: "0 < (p::int) \<Longrightarrow> (n div p) * p \<le> n"
  by (metis div_mult_mod_eq le_add_same_cancel1 pos_mod_sign)

text \<open>The number of rows on a page.\<close>

lemma paginate_queryset_items:
  assumes "paginate_queryset page_size qs request = Inr (Some pg)"
  shows "int (length (page_object_list pg))
           = min page_size (int (length (rows qs)) - (number pg - 1) * page_size)"
proof -
  let ?n = "int (length (rows qs))"
  let ?b = "(number pg - 1) * page_size"
  have pos: "0 < page_size"
    by (rule paginate_queryset_positive [OF assms])
  have lo: "1 \<le> number pg"
    using paginate_queryset_page [OF assms] by blast
  have pp: "paginator pg = \<lparr>object_list = rows qs, per_page = page_size\<rparr>"
    using paginate_queryset_page [OF assms] by blast
  have "number pg \<le> Paginator_num_pages (paginator pg)"
    using paginate_queryset_page [OF assms] by blast
  then have hi: "number pg \<le> Paginator_num_pages \<lparr>object_list = rows qs, per_page = page_size\<rparr>"
    unfolding pp .
  have b0: "0 \<le> ?b" using pos lo by simp
  have items: "page_object_list pg
      = slice (rows qs) ?b (if ?b + page_size \<ge> ?n then ?n else ?b + page_size)"
    using assms
    by (auto simp: paginate_queryset_def Let_def Paginator_page_def Paginator_validate_number_def
          Paginator_count_def split: if_splits sum.splits option.splits)
  have bn: "?b \<le> ?n"
  proof (cases "rows qs = []")
    case True
    then have "Paginator_num_pages \<lparr>object_list = rows qs, per_page = page_size\<rparr> = 1"
      using pos by (simp add: num_pages_empty)
    with lo hi have "number pg = 1" by simp
    then show ?thesis by simp
  next
    case False
    have "Paginator_num_pages \<lparr>object_list = rows qs, per_page = page_size\<rparr>
            = - ((- ?n) div page_size)"
      using False by (cases "rows qs") (simp_all add: num_pages_int Paginator_count_def)
    with hi have "number pg - 1 \<le> - ((- ?n) div page_size) - 1" by simp
    also have "- ((- ?n) div page_size) - 1 \<le> ?n div page_size"
      by (rule ceil_div_le [OF pos])
    finally have "number pg - 1 \<le> ?n div page_size" .
    then have "?b \<le> (?n div page_size) * page_size"
      using pos by (simp add: mult_right_mono)
    also have "\<dots> \<le> ?n"
      by (rule div_mult_le_int [OF pos])
    finally show ?thesis .
  qed
  show ?thesis
    using b0 bn pos unfolding items slice_def by (auto simp: min_def)
qed

text \<open>
  \<open>paginated_response\<close> returns exactly when \<open>paginate_queryset\<close> produced a page, and
  then returns the envelope built from that page.
\<close>

lemma paginated_response_of_page:
  assumes "paginate_queryset (arg_or 10 page_size_arg)
             (if \<not> ordered qs then order_by (created_at env) qs else qs) request = Inr (Some pg)"
  shows "paginated_response env request (Some qs) message_arg page_size_arg status_code_arg
         = Inr \<lparr>data = PDict [(''status'', PBool True),
                              (''message'', PStr (arg_or (ustr ''Success'') message_arg)),
                              (''data'', PList (map (serializer_class env) (page_object_list pg))),
                              (''status_code'', PInt (arg_or 200 status_code_arg)),
                              (''pagination'',
                                 PDict [(''next'', get_next_link env request pg),
                                        (''previous'', get_previous_link env request pg),
                                        (''count'', PInt (Paginator_count (paginator pg))),
                                        (''current_page'', PInt (number pg)),
                                        (''total_pages'',
                                           PInt (Paginator_num_pages (paginator pg)))])],
                 status = 200\<rparr>"
  using assms by (simp add: paginated_response_def Let_def HTTP_200_OK_def)

lemma paginated_response_page:
  assumes "paginated_response env request queryset_arg message_arg page_size_arg status_code_arg
             = Inr response"
  shows "\<exists>qs pg. queryset_arg = Some qs
           \<and> paginate_queryset (arg_or 10 page_size_arg)
                (if \<not> ordered qs then order_by (created_at env) qs else qs) request
              = Inr (Some pg)"
proof (cases queryset_arg)
  case None
  with assms show ?thesis by (simp add: paginated_response_def Let_def)
next
  case (Some qs)
  let ?r = "paginate_queryset (arg_or 10 page_size_arg)
              (if \<not> ordered qs then order_by (created_at env) qs else qs) request"
  show ?thesis
  proof (cases ?r)
    case (Inl e)
    with assms Some show ?thesis by (simp add: paginated_response_def Let_def)
  next
    case (Inr po)
    show ?thesis
    proof (cases po)
      case None
      with assms Some Inr show ?thesis by (simp add: paginated_response_def Let_def)
    next
      case (Some pg)
      with Inr \<open>queryset_arg = Some qs\<close> show ?thesis by simp
    qed
  qed
qed

text \<open>Two runs of \<open>paginated_response\<close>.\<close>

lemma eval_empty_404:
  "paginated_response sample_env (sample_request NoPage) (Some \<lparr>rows = [], ordered = True\<rparr>)
     None None (Some 404)
   = Inr \<lparr>data = PDict [(''status'', PBool True), (''message'', PStr (ustr ''Success'')),
                        (''data'', PList []), (''status_code'', PInt 404),
                        (''pagination'', PDict [(''next'', PNone), (''previous'', PNone),
                            (''count'', PInt 0), (''current_page'', PInt 1),
                            (''total_pages'', PInt 1)])],
           status = 200\<rparr>"
  by (simp add: pag_defs)

lemma eval_25_page_2:
  "paginated_response sample_env (sample_request (Number 2))
     (Some \<lparr>rows = [1, 2, 3, 4, 5, 6, 7, 8, 9, 10, 11, 12, 13, 14, 15, 16, 17, 18, 19, 20,
                     21, 22, 23, 24, 25], ordered = False\<rparr>) None (Some 10) None
   = Inr \<lparr>data = PDict [(''status'', PBool True), (''message'', PStr (ustr ''Success'')),
                        (''data'', PList (map PInt [11, 12, 13, 14, 15, 16, 17, 18, 19, 20])),
                        (''status_code'', PInt 200),
                        (''pagination'',
                           PDict [(''next'', PStr (ustr ''http://testserver/items/'')),
                                  (''previous'', PStr (ustr ''http://testserver/items/'')),
                                  (''count'', PInt 25), (''current_page'', PInt 2),
                                  (''total_pages'', PInt 3)])],
           status = 200\<rparr>"
  by (simp add: pag_defs)

section \<open>Registration: \<open>validate_password_confirmation\<close>\<close>

text \<open>
  C4. On registration the validator returns the confirmation value exactly when the raw
  password is a string that matches the composed pattern and equals the confirmation.
  When it raises a validation error, the message names a rule that is violated: the
  complexity message exactly when the raw password is a string that does not match the
  pattern, and the mismatch message exactly when it is a string that matches and differs
  from the confirmation. The one remaining outcome is the \<open>TypeError\<close> of a raw password
  that is not a string.
\<close>

theorem registration_accepts_iff:
  "(UserRegistrationSerializer_validate_password_confirmation nd initial value = Inr r) =
     (r = value \<and> (\<exists>p. dict_get initial ''password'' = PStr p
                        \<and> matches nd password_regex 0 p \<and> p = value))
   \<and> (UserRegistrationSerializer_validate_password_confirmation nd initial value
         = Inl (ValidationError InvalidPassword)) =
       (\<exists>p. dict_get initial ''password'' = PStr p \<and> \<not> matches nd password_regex 0 p)
   \<and> (UserRegistrationSerializer_validate_password_confirmation nd initial value
         = Inl (ValidationError PasswordMismatch)) =
       (\<exists>p. dict_get initial ''password'' = PStr p \<and> matches nd password_regex 0 p \<and> p \<noteq> value)
   \<and> (UserRegistrationSerializer_validate_password_confirmation nd initial value = Inl TypeError) =
       (\<not> isinstance_str (dict_get initial ''password''))"
  using messages_differ
  by (cases "dict_get initial ''password''") (auto simp: registration_cases)

theorem registration_accepts_iff_witness:
  "UserRegistrationSerializer_validate_password_confirmation no_more_digits
     [''password'' \<mapsto> PStr (ustr ''Abcdef1!''),
      ''password_confirmation'' \<mapsto> PStr (ustr ''Abcdef1!'')] (ustr ''Abcdef1!'')
   = Inr (ustr ''Abcdef1!'')"
  using registration_accepts_iff [of no_more_digits
          "[''password'' \<mapsto> PStr (ustr ''Abcdef1!''),
            ''password_confirmation'' \<mapsto> PStr (ustr ''Abcdef1!'')]"
          "ustr ''Abcdef1!''" "ustr ''Abcdef1!''"]
        matches_Abcdef1 [of no_more_digits]
  by (simp add: dict_get_def)

text \<open>
  C1, as the code has it. When the raw password is a string that differs from the
  confirmation, validation fails, and the composed-password check decides the message:
  it runs first, so the mismatch message is raised only for a password that satisfies
  the composed rule, and a password that fails the rule gets the complexity message.
\<close>

theorem registration_mismatch_after_composed_check:
  assumes "dict_get initial ''password'' = PStr p" and "p \<noteq> value"
  shows "UserRegistrationSerializer_validate_password_confirmation nd initial value =
           Inl (ValidationError (if matches nd password_regex 0 p then PasswordMismatch
                                 else InvalidPassword))"
  using assms by (simp add: registration_cases)

theorem registration_mismatch_after_composed_check_witness:
  "dict_get [''password'' \<mapsto> PStr (ustr ''Abcdef1!'')] ''password'' = PStr (ustr ''Abcdef1!'')
   \<and> ustr ''Abcdef1!'' \<noteq> ustr ''Abcdef2!''
   \<and> UserRegistrationSerializer_validate_password_confirmation no_more_digits
        [''password'' \<mapsto> PStr (ustr ''Abcdef1!'')] (ustr ''Abcdef2!'')
      = Inl (ValidationError PasswordMismatch)"
proof -
  have h1: "dict_get [''password'' \<mapsto> PStr (ustr ''Abcdef1!'')] ''password''
              = PStr (ustr ''Abcdef1!'')"
    by (simp add: dict_get_def)
  have h2: "ustr ''Abcdef1!'' \<noteq> ustr ''Abcdef2!''"
    by (simp add: ustr_def)
  show ?thesis
    using registration_mismatch_after_composed_check [OF h1 h2, of no_more_digits]
          matches_Abcdef1 [of no_more_digits] h1 h2
    by simp
qed

text \<open>
  C1 as stated fails: the password \<open>abcdef12\<close> and the confirmation \<open>abcdef13\<close> differ,
  and the error raised is the complexity message, not the mismatch message.
\<close>

theorem registration_mismatch_not_first:
  "PStr (ustr ''abcdef12'') \<noteq> PStr (ustr ''abcdef13'')
   \<and> UserRegistrationSerializer_validate_password_confirmation no_more_digits
        [''password'' \<mapsto> PStr (ustr ''abcdef12''),
         ''password_confirmation'' \<mapsto> PStr (ustr ''abcdef13'')] (ustr ''abcdef13'')
      = Inl (ValidationError InvalidPassword)
   \<and> UserRegistrationSerializer_validate_password_confirmation no_more_digits
        [''password'' \<mapsto> PStr (ustr ''abcdef12''),
         ''password_confirmation'' \<mapsto> PStr (ustr ''abcdef13'')] (ustr ''abcdef13'')
      \<noteq> Inl (ValidationError PasswordMismatch)"
  using not_matches_abcdef12 [of no_more_digits] messages_differ
  by (simp add: registration_cases dict_get_def) (simp add: ustr_def)

text \<open>
  C5, at a string of 17 characters: sixteen characters of the set followed by a newline.
  The pattern matches it (\<open>$\<close> matches before the final newline), so whatever the
  confirmation is, the complexity message is not raised. By
  \<open>password_regex_no_final_newline\<close> every string that does not end in a newline is
  rejected unless it has 8 to 16 characters and one of each class, so the final newline
  is the only way past the length bound.
\<close>

theorem registration_accepts_17_characters:
  "length (ustr ''Abcdefgh1234567!'' @ [10]) = 17
   \<and> re_match nd password_regex (PStr (ustr ''Abcdefgh1234567!'' @ [10])) = Inr True
   \<and> UserRegistrationSerializer_validate_password_confirmation nd
        [''password'' \<mapsto> PStr (ustr ''Abcdefgh1234567!'' @ [10])] value
      \<noteq> Inl (ValidationError InvalidPassword)
   \<and> UserRegistrationSerializer_validate_password_confirmation nd
        [''password'' \<mapsto> PStr (ustr ''Abcdefgh1234567!'' @ [10])] (ustr ''Abcdefgh1234567!'' @ [10])
      = Inr (ustr ''Abcdefgh1234567!'' @ [10])"
  using matches_16_newline [of nd] messages_differ
  by (simp add: registration_cases dict_get_def) (simp add: ustr_def)

text \<open>
  C9, at \<open>Abcdef1!\<close> followed by a newline: nine characters, one of each required class,
  and a last character (code point 10) that is no letter, digit or symbol of the set.
  The composed check accepts the string. By \<open>password_regex_iff\<close> a final newline is the
  only character outside the set that an accepted string can hold.
\<close>

theorem registration_accepts_trailing_newline:
  "\<not> atom_ok nd (Set password_set) (last (ustr ''Abcdef1!'' @ [10]))
   \<and> re_match nd password_regex (PStr (ustr ''Abcdef1!'' @ [10])) = Inr True
   \<and> UserRegistrationSerializer_validate_password_confirmation nd
        [''password'' \<mapsto> PStr (ustr ''Abcdef1!'' @ [10])] (ustr ''Abcdef1!'' @ [10])
      = Inr (ustr ''Abcdef1!'' @ [10])"
  using matches_Abcdef1_newline [of nd] newline_in_no_set(1) [of nd]
  by (simp add: registration_cases dict_get_def)

text \<open>
  C8. When the raw input has no \<open>password\<close> key, the pattern is matched against \<open>None\<close>
  and the validator leaves with a \<open>TypeError\<close>, not a validation error, whatever the
  confirmation and the other keys are.
\<close>

theorem registration_missing_password_TypeError:
  assumes "initial ''password'' = None"
  shows "UserRegistrationSerializer_validate_password_confirmation nd initial value = Inl TypeError"
  using assms by (simp add: registration_cases dict_get_def)

theorem registration_missing_password_TypeError_witness:
  "[''password_confirmation'' \<mapsto> PStr (ustr ''Abcdef1!'')] ''password'' = None
   \<and> UserRegistrationSerializer_validate_password_confirmation no_more_digits
        [''password_confirmation'' \<mapsto> PStr (ustr ''Abcdef1!'')] (ustr ''Abcdef1!'')
      = Inl TypeError"
proof -
  have h: "[''password_confirmation'' \<mapsto> PStr (ustr ''Abcdef1!'')] ''password'' = None"
    by simp
  show ?thesis
    using registration_missing_password_TypeError
            [of "[''password_confirmation'' \<mapsto> PStr (ustr ''Abcdef1!'')]" no_more_digits
                "ustr ''Abcdef1!''"] h
    by simp
qed

section \<open>Password reset: \<open>validate_password_confirmation\<close>\<close>

text \<open>
  C10. The \<open>password_confirmation\<close> field of the reset serializer declares neither
  \<open>max_length\<close> nor \<open>min_length\<close>; its validator compares the confirmation with the raw
  \<open>password\<close> value and does nothing else; and when the raw input has no \<open>password\<close> key
  the comparison is with \<open>None\<close>, so every confirmation fails with the mismatch message.
\<close>

theorem reset_confirmation_only_compares:
  "max_length PasswordResetConfirmationSerializer_password_confirmation = None
   \<and> min_length PasswordResetConfirmationSerializer_password_confirmation = None
   \<and> PasswordResetConfirmationSerializer_validate_password_confirmation initial value =
       (if dict_get initial ''password'' = PStr value then Inr value
        else Inl (ValidationError PasswordMismatch))
   \<and> (initial ''password'' = None \<longrightarrow>
        PasswordResetConfirmationSerializer_validate_password_confirmation initial value =
          Inl (ValidationError PasswordMismatch))"
  by (simp add: PasswordResetConfirmationSerializer_password_confirmation_def
        PasswordResetConfirmationSerializer_validate_password_confirmation_def dict_get_def)

theorem reset_confirmation_only_compares_witness:
  "[''otp'' \<mapsto> PStr (ustr ''123456''), ''password_confirmation'' \<mapsto> PStr (ustr ''x'')] ''password''
     = None
   \<and> PasswordResetConfirmationSerializer_validate_password_confirmation
        [''otp'' \<mapsto> PStr (ustr ''123456''), ''password_confirmation'' \<mapsto> PStr (ustr ''x'')]
        (ustr ''x'')
      = Inl (ValidationError PasswordMismatch)"
proof -
  have h: "[''otp'' \<mapsto> PStr (ustr ''123456''), ''password_confirmation'' \<mapsto> PStr (ustr ''x'')]
             ''password'' = None"
    by simp
  show ?thesis
    using reset_confirmation_only_compares
            [of "[''otp'' \<mapsto> PStr (ustr ''123456''), ''password_confirmation'' \<mapsto> PStr (ustr ''x'')]"
                "ustr ''x''"] h
    by (simp add: dict_get_def)
qed

section \<open>The response formatter\<close>

text \<open>
  C6. \<open>error\<close> wraps a single string into a one-element list, passes a list through as
  it is, and puts null when \<open>errors\<close> is omitted; the body is the three keys \<open>status\<close>
  (false), \<open>message\<close> and \<open>errors\<close>, and the HTTP status is \<open>status_code\<close>, 400 when
  omitted.
\<close>

theorem error_envelope:
  "error message (Some (PStr s)) status_code_arg =
     \<lparr>data = PDict [(''status'', PBool False), (''message'', PStr message),
                    (''errors'', PList [PStr s])],
      status = arg_or 400 status_code_arg\<rparr>
   \<and> error message (Some (PList xs)) status_code_arg =
     \<lparr>data = PDict [(''status'', PBool False), (''message'', PStr message),
                    (''errors'', PList xs)],
      status = arg_or 400 status_code_arg\<rparr>
   \<and> error message None status_code_arg =
     \<lparr>data = PDict [(''status'', PBool False), (''message'', PStr message),
                    (''errors'', PNone)],
      status = arg_or 400 status_code_arg\<rparr>
   \<and> status (error message errors_arg (Some status_code)) = status_code
   \<and> status (error message errors_arg None) = 400"
  by (simp add: error_def arg_or_def HTTP_400_BAD_REQUEST_def Let_def)

text \<open>
  C3. Whenever \<open>paginated_response\<close> returns a response, its HTTP status is 200, whatever
  was passed as \<open>status_code\<close>; the argument (200 when omitted) is what the body holds
  under \<open>status_code\<close>, and nothing else depends on it: the same call with any other
  \<open>status_code\<close> returns a response with the same HTTP status and the same value under
  every other key of the body.
\<close>

theorem paginated_response_status_200:
  assumes "paginated_response env request queryset_arg message_arg page_size_arg status_code_arg
             = Inr response"
  shows "status response = 200
         \<and> field (data response) ''status_code'' = Some (PInt (arg_or 200 status_code_arg))
         \<and> (\<exists>response'.
               paginated_response env request queryset_arg message_arg page_size_arg other_status_code
                 = Inr response'
               \<and> status response' = status response
               \<and> (\<forall>k. k \<noteq> ''status_code'' \<longrightarrow> field (data response') k = field (data response) k))"
proof -
  from paginated_response_page [OF assms] obtain qs pg where
    q: "queryset_arg = Some qs" and
    p: "paginate_queryset (arg_or 10 page_size_arg)
          (if \<not> ordered qs then order_by (created_at env) qs else qs) request = Inr (Some pg)"
    by blast
  note eq = paginated_response_of_page [OF p]
  from assms have r: "response = projr (paginated_response env request (Some qs) message_arg
      page_size_arg status_code_arg)"
    unfolding q by simp
  have s: "status response = 200"
    unfolding r eq by simp
  have f: "field (data response) ''status_code'' = Some (PInt (arg_or 200 status_code_arg))"
    unfolding r eq by simp
  have o: "\<forall>k. k \<noteq> ''status_code'' \<longrightarrow>
      field (data (projr (paginated_response env request (Some qs) message_arg page_size_arg
         other_status_code))) k = field (data response) k"
    unfolding r eq by simp
  have s': "status (projr (paginated_response env request (Some qs) message_arg page_size_arg
         other_status_code)) = status response"
    unfolding r eq by simp
  have e: "paginated_response env request queryset_arg message_arg page_size_arg other_status_code
      = Inr (projr (paginated_response env request (Some qs) message_arg page_size_arg
         other_status_code))"
    unfolding q eq by simp
  from s f o s' e show ?thesis by blast
qed

theorem paginated_response_status_200_witness:
  "paginated_response sample_env (sample_request NoPage) (Some \<lparr>rows = [], ordered = True\<rparr>)
     None None (Some 404)
   = Inr \<lparr>data = PDict [(''status'', PBool True), (''message'', PStr (ustr ''Success'')),
                        (''data'', PList []), (''status_code'', PInt 404),
                        (''pagination'', PDict [(''next'', PNone), (''previous'', PNone),
                            (''count'', PInt 0), (''current_page'', PInt 1),
                            (''total_pages'', PInt 1)])],
           status = 200\<rparr>
   \<and> status \<lparr>data = PDict [(''status'', PBool True), (''message'', PStr (ustr ''Success'')),
                        (''data'', PList []), (''status_code'', PInt 404),
                        (''pagination'', PDict [(''next'', PNone), (''previous'', PNone),
                            (''count'', PInt 0), (''current_page'', PInt 1),
                            (''total_pages'', PInt 1)])],
           status = 200\<rparr> = 200"
  using paginated_response_status_200 [OF eval_empty_404] eval_empty_404
  by simp

text \<open>
  C7, as the code has it. Whenever \<open>paginated_response\<close> returns, \<open>count\<close> is the
  number of rows of the whole queryset, \<open>current_page\<close> is the requested page counted
  from 1 (1 when none is requested, the last page for \<open>last\<close>) and lies between 1 and
  \<open>total_pages\<close>, the page holds \<open>page_size\<close> rows or what is left of them, \<open>next\<close> is null
  exactly on the last page and \<open>previous\<close> exactly on the first, and \<open>total_pages\<close> is the
  ceiling of count / page_size when the queryset has rows, and 1 when it has none. At 25
  rows, page size 10 and page 2 (the instance that follows the theorem) that is
  10 items, \<open>current_page\<close> 2, \<open>total_pages\<close> 3 and two links that are not null.
\<close>

theorem paginated_response_pagination_block:
  assumes "paginated_response env request (Some qs) message_arg page_size_arg status_code_arg
             = Inr response"
  shows "\<exists>items nxt prv cur tot.
           field (data response) ''data'' = Some (PList items)
         \<and> field (data response) ''pagination''
             = Some (PDict [(''next'', nxt), (''previous'', prv),
                            (''count'', PInt (int (length (rows qs)))),
                            (''current_page'', PInt cur), (''total_pages'', PInt tot)])
         \<and> 0 < arg_or 10 page_size_arg
         \<and> tot = (if rows qs = [] then 1
                   else \<lceil>real_of_int (int (length (rows qs))) / real_of_int (arg_or 10 page_size_arg)\<rceil>)
         \<and> 1 \<le> cur \<and> cur \<le> tot
         \<and> (case page_param request of
               NoPage \<Rightarrow> cur = 1 | Last \<Rightarrow> cur = tot | Number k \<Rightarrow> cur = k
             | NotAnInteger \<Rightarrow> False)
         \<and> int (length items)
             = min (arg_or 10 page_size_arg)
                   (int (length (rows qs)) - (cur - 1) * arg_or 10 page_size_arg)
         \<and> (nxt = PNone) = (cur = tot) \<and> (prv = PNone) = (cur = 1)"
proof -
  let ?ps = "arg_or 10 page_size_arg"
  from paginated_response_Inr [OF assms] obtain pg qs' where
    len: "length (rows qs') = length (rows qs)" and
    pq: "paginate_queryset ?ps qs' request = Inr (Some pg)" and
    d: "field (data response) ''data''
          = Some (PList (map (serializer_class env) (page_object_list pg)))" and
    p: "field (data response) ''pagination''
          = Some (PDict [(''next'', get_next_link env request pg),
                         (''previous'', get_previous_link env request pg),
                         (''count'', PInt (Paginator_count (paginator pg))),
                         (''current_page'', PInt (number pg)),
                         (''total_pages'', PInt (Paginator_num_pages (paginator pg)))])"
    by blast
  have pos: "0 < ?ps" by (rule paginate_queryset_positive [OF pq])
  have pp: "paginator pg = \<lparr>object_list = rows qs', per_page = ?ps\<rparr>"
    using paginate_queryset_page [OF pq] by blast
  have lo: "1 \<le> number pg" and hi: "number pg \<le> Paginator_num_pages (paginator pg)"
    using paginate_queryset_page [OF pq] by blast+
  have gp: "get_page_number request (paginator pg) = Some (number pg)"
    using paginate_queryset_page [OF pq] by blast
  have cnt: "Paginator_count (paginator pg) = int (length (rows qs))"
    by (simp add: pp Paginator_count_def len)
  have empty_iff: "(rows qs' = []) = (rows qs = [])"
    using len by (metis length_0_conv)
  have tot: "Paginator_num_pages (paginator pg)
      = (if rows qs = [] then 1
         else \<lceil>real_of_int (int (length (rows qs))) / real_of_int ?ps\<rceil>)"
  proof (cases "rows qs = []")
    case True
    then show ?thesis using pos empty_iff by (simp add: pp num_pages_empty)
  next
    case False
    then have "object_list (paginator pg) \<noteq> []" using empty_iff by (simp add: pp)
    from num_pages_nonempty [OF this] show ?thesis
      using False cnt by (simp add: pp)
  qed
  have cur: "(case page_param request of
               NoPage \<Rightarrow> number pg = 1 | Last \<Rightarrow> number pg = Paginator_num_pages (paginator pg)
             | Number k \<Rightarrow> number pg = k | NotAnInteger \<Rightarrow> False)"
    using gp by (auto simp: get_page_number_def split: query_page.splits)
  have items: "int (length (map (serializer_class env) (page_object_list pg)))
      = min ?ps (int (length (rows qs)) - (number pg - 1) * ?ps)"
    using paginate_queryset_items [OF pq] len by simp
  have nxt: "(get_next_link env request pg = PNone)
               = (number pg = Paginator_num_pages (paginator pg))"
    using hi by (auto simp: get_next_link_def has_next_def)
  have prv: "(get_previous_link env request pg = PNone) = (number pg = 1)"
    using lo by (auto simp: get_previous_link_def has_previous_def Let_def)
  show ?thesis
    using d p pos tot lo hi cur items nxt prv unfolding cnt by blast
qed

theorem paginated_response_pagination_block_witness:
  "\<exists>items nxt prv.
     paginated_response sample_env (sample_request (Number 2))
       (Some \<lparr>rows = [1, 2, 3, 4, 5, 6, 7, 8, 9, 10, 11, 12, 13, 14, 15, 16, 17, 18, 19, 20,
                       21, 22, 23, 24, 25], ordered = False\<rparr>) None (Some 10) None
     = Inr \<lparr>data = PDict [(''status'', PBool True), (''message'', PStr (ustr ''Success'')),
                          (''data'', PList items), (''status_code'', PInt 200),
                          (''pagination'',
                             PDict [(''next'', nxt), (''previous'', prv),
                                    (''count'', PInt 25), (''current_page'', PInt 2),
                                    (''total_pages'', PInt 3)])],
             status = 200\<rparr>
     \<and> length items = 10 \<and> nxt \<noteq> PNone \<and> prv \<noteq> PNone"
  using paginated_response_pagination_block [OF eval_25_page_2] eval_25_page_2
  by simp

text \<open>
  C7 as stated fails on the empty queryset: with page size 5 the count is 0, the ceiling
  of 0 / 5 is 0, and \<open>total_pages\<close> is 1.
\<close>

theorem total_pages_not_ceiling_when_empty:
  "paginated_response sample_env (sample_request NoPage)
     (Some \<lparr>rows = [], ordered = True\<rparr>) None (Some 5) None
   = Inr \<lparr>data = PDict [(''status'', PBool True), (''message'', PStr (ustr ''Success'')),
                        (''data'', PList []), (''status_code'', PInt 200),
                        (''pagination'', PDict [(''next'', PNone), (''previous'', PNone),
                            (''count'', PInt 0), (''current_page'', PInt 1),
                            (''total_pages'', PInt 1)])],
           status = 200\<rparr>
   \<and> \<lceil>real_of_int 0 / real_of_int 5\<rceil> \<noteq> (1::int)"
  by (simp add: pag_defs)


text \<open>
  C2, as the code has it. For an empty queryset, a positive page size and a requested
  page that is absent, 1 or \<open>last\<close>, \<open>paginated_response\<close> returns an empty \<open>data\<close> list
  and a pagination block with \<open>count\<close> 0, \<open>current_page\<close> 1, \<open>total_pages\<close> 1 and \<open>next\<close> and
  \<open>previous\<close> null. A queryset that is missing (\<open>None\<close>) gives no response: reading its
  \<open>ordered\<close> attribute raises \<open>AttributeError\<close>.
\<close>

theorem paginated_response_empty:
  assumes "rows qs = []" and "0 < arg_or 10 page_size_arg"
    and "page_param request \<in> {NoPage, Last, Number 1}"
  shows "paginated_response env request (Some qs) message_arg page_size_arg status_code_arg
         = Inr \<lparr>data = PDict [(''status'', PBool True),
                              (''message'', PStr (arg_or (ustr ''Success'') message_arg)),
                              (''data'', PList []),
                              (''status_code'', PInt (arg_or 200 status_code_arg)),
                              (''pagination'',
                                 PDict [(''next'', PNone), (''previous'', PNone),
                                        (''count'', PInt 0), (''current_page'', PInt 1),
                                        (''total_pages'', PInt 1)])],
                 status = 200\<rparr>
         \<and> paginated_response env request None message_arg page_size_arg status_code_arg
             = Inl AttributeError"
proof -
  let ?ps = "arg_or 10 page_size_arg"
  have np: "\<And>xs. xs = [] \<Longrightarrow> Paginator_num_pages \<lparr>object_list = xs, per_page = ?ps\<rparr> = 1"
    using assms(2) by (simp add: num_pages_empty)
  have r: "rows (if \<not> ordered qs then order_by (created_at env) qs else qs) = []"
    using assms(1) by (simp add: order_by_def)
  show ?thesis
    using assms(2,3) r np [OF r] np [OF assms(1)]
    by (auto simp: paginated_response_def paginate_queryset_def Paginator_page_def
          Paginator_validate_number_def get_page_number_def get_next_link_def
          get_previous_link_def has_next_def has_previous_def Paginator_count_def slice_def
          HTTP_200_OK_def Let_def)
qed


theorem paginated_response_empty_witness:
  "rows \<lparr>rows = ([]::int list), ordered = False\<rparr> = []
   \<and> 0 < arg_or (10::int) None
   \<and> page_param (sample_request NoPage) \<in> {NoPage, Last, Number 1}
   \<and> paginated_response sample_env (sample_request NoPage)
        (Some \<lparr>rows = [], ordered = False\<rparr>) None None None
      = Inr \<lparr>data = PDict [(''status'', PBool True), (''message'', PStr (ustr ''Success'')),
                           (''data'', PList []), (''status_code'', PInt 200),
                           (''pagination'', PDict [(''next'', PNone), (''previous'', PNone),
                               (''count'', PInt 0), (''current_page'', PInt 1),
                               (''total_pages'', PInt 1)])],
              status = 200\<rparr>"
proof -
  have h1: "rows \<lparr>rows = ([]::int list), ordered = False\<rparr> = []" by simp
  have h2: "0 < arg_or (10::int) None" by (simp add: arg_or_def)
  have h3: "page_param (sample_request NoPage) \<in> {NoPage, Last, Number 1}"
    by (simp add: sample_request_def)
  show ?thesis
    using paginated_response_empty [OF h1 h2 h3, of sample_env None None] h1 h2 h3
    by (simp add: arg_or_def)
qed

text \<open>
  C2 as stated fails: on the empty queryset with the default arguments \<open>total_pages\<close> is
  1, not 0, and on a missing queryset there is no response at all.
\<close>

theorem paginated_response_empty_has_one_page:
  "paginated_response sample_env (sample_request NoPage)
     (Some \<lparr>rows = [], ordered = True\<rparr>) None None None
   = Inr \<lparr>data = PDict [(''status'', PBool True), (''message'', PStr (ustr ''Success'')),
                        (''data'', PList []), (''status_code'', PInt 200),
                        (''pagination'', PDict [(''next'', PNone), (''previous'', PNone),
                            (''count'', PInt 0), (''current_page'', PInt 1),
                            (''total_pages'', PInt 1)])],
           status = 200\<rparr>
   \<and> PInt 1 \<noteq> PInt 0
   \<and> paginated_response sample_env (sample_request NoPage) None None None None
       = Inl AttributeError"
  by (simp add: pag_defs)

end
